theory Spec2Isabelle
  imports Main
begin

section \<open>Python values, exceptions and results\<close>

text \<open>
  The driver layer of \<^verbatim>\<open>manila/share/driver.py\<close> passes most of its arguments through
  without looking at them (context, share, snapshot, share server ...). They are Python
  objects; the model keeps the few shapes the code distinguishes (\<^verbatim>\<open>None\<close>, booleans,
  integers, strings) and an opaque object with an identity for everything else.
\<close>

datatype pyval = PyNone | PyBool bool | PyInt int | PyStr string | PyObj nat

text \<open>Python truthiness, as used by \<^verbatim>\<open>if count:\<close> and by \<^verbatim>\<open>a or b\<close>.\<close>

fun truthy :: "pyval \<Rightarrow> bool" where
  "truthy PyNone = False"
| "truthy (PyBool b) = b"
| "truthy (PyInt i) = (i \<noteq> 0)"
| "truthy (PyStr s) = (s \<noteq> [])"
| "truthy (PyObj _) = True"

definition py_or :: "pyval \<Rightarrow> pyval \<Rightarrow> pyval" where
  "py_or a b = (if truthy a then a else b)"

text \<open>
  Exceptions. \<open>ProcessExecutionError\<close> stands for every exception that the clause
  \<^verbatim>\<open>except exception.ProcessExecutionError\<close> catches; its argument is the description
  carried by the instance, so that two raised instances can be told apart.
  \<open>AttributeError\<close> carries the name of the attribute that was read,
  \<open>OtherException\<close> the name of any other exception class.
\<close>

datatype exn =
    ProcessExecutionError string
  | NotImplementedError
  | AttributeError string
  | OtherException string

fun is_ProcessExecutionError :: "exn \<Rightarrow> bool" where
  "is_ProcessExecutionError (ProcessExecutionError _) = True"
| "is_ProcessExecutionError _ = False"

type_synonym 'a result = "exn + 'a"

type_synonym kwargs = "string \<rightharpoonup> pyval"

section \<open>Configuration\<close>

text \<open>
  The options of \<^verbatim>\<open>share_opts\<close> that this module reads, with the types their
  declarations give them (\<^verbatim>\<open>IntOpt\<close>, \<^verbatim>\<open>StrOpt\<close> with default \<^verbatim>\<open>None\<close>), and the
  \<^verbatim>\<open>config_group\<close> attribute of the configuration object.
\<close>

record configuration =
  num_shell_tries :: int
  reserved_share_percentage :: int
  share_backend_name :: "string option"
  network_config_group :: "string option"
  config_group :: "string option"

definition opt_str :: "string option \<Rightarrow> pyval" where
  "opt_str v = (case v of None \<Rightarrow> PyNone | Some s \<Rightarrow> PyStr s)"

text \<open>
  Modelled from the spec: the class of the configuration object is not part of this
  module; the spec describes it as an opaque mapping of option name to value.
  \<open>safe_get\<close> looks an option up by name and yields \<^verbatim>\<open>None\<close> for a name that is no option.
\<close>

definition safe_get :: "configuration \<Rightarrow> string \<Rightarrow> pyval" where
  "safe_get cfg name =
     (if name = ''num_shell_tries'' then PyInt (num_shell_tries cfg)
      else if name = ''reserved_share_percentage'' then PyInt (reserved_share_percentage cfg)
      else if name = ''share_backend_name'' then opt_str (share_backend_name cfg)
      else if name = ''network_config_group'' then opt_str (network_config_group cfg)
      else PyNone)"

section \<open>ExecuteMixin\<close>

text \<open>
  The execute primitive is a black box with effects of its own: it takes the command and
  the keyword options, reads and changes some outside world \<open>'w\<close>, and either returns
  (\<open>None\<close>; \<^verbatim>\<open>_try_execute\<close> drops the returned value) or raises (\<open>Some e\<close>).
\<close>

type_synonym 'w execute = "pyval list \<Rightarrow> kwargs \<Rightarrow> 'w \<Rightarrow> exn option \<times> 'w"

record 'w ExecuteMixin =
  em_configuration :: "configuration option"
  em_execute :: "'w execute"

definition set_execute :: "'w ExecuteMixin \<Rightarrow> 'w execute \<Rightarrow> 'w ExecuteMixin" where
  "set_execute self execute = self\<lparr>em_execute := execute\<rparr>"

text \<open>
  What \<^verbatim>\<open>_try_execute\<close> does to its surroundings: the world of the primitive, and the
  trace of what happened in order: an invocation of the primitive, a call of
  \<^verbatim>\<open>LOG.exception\<close> with its try number, a call of \<^verbatim>\<open>time.sleep\<close> with its argument.
\<close>

datatype event = Invoked | Logged int | Slept int

record 'w env =
  world :: 'w
  trace :: "event list"

fun invocations_of :: "event list \<Rightarrow> nat" where
  "invocations_of [] = 0"
| "invocations_of (Invoked # es) = Suc (invocations_of es)"
| "invocations_of (_ # es) = invocations_of es"

fun sleeps_of :: "event list \<Rightarrow> int list" where
  "sleeps_of [] = []"
| "sleeps_of (Slept t # es) = t # sleeps_of es"
| "sleeps_of (_ # es) = sleeps_of es"

fun logs_of :: "event list \<Rightarrow> int list" where
  "logs_of [] = []"
| "logs_of (Logged t # es) = t # logs_of es"
| "logs_of (_ # es) = logs_of es"

definition invocations :: "'w env \<Rightarrow> nat" where
  "invocations e = invocations_of (trace e)"

definition slept :: "'w env \<Rightarrow> int list" where
  "slept e = sleeps_of (trace e)"

definition logged :: "'w env \<Rightarrow> int list" where
  "logged e = logs_of (trace e)"

text \<open>One call \<^verbatim>\<open>self._execute(*command, **kwargs)\<close>, recorded.\<close>

definition invoke :: "'w ExecuteMixin \<Rightarrow> pyval list \<Rightarrow> kwargs \<Rightarrow> 'w env \<Rightarrow> exn option \<times> 'w env" where
  "invoke self command kwargs e =
     (case em_execute self command kwargs (world e) of
        (r, w) \<Rightarrow> (r, e\<lparr>world := w, trace := trace e @ [Invoked]\<rparr>))"

text \<open>
  The two statements at the end of the handler, \<^verbatim>\<open>LOG.exception(..., tries)\<close> and
  \<^verbatim>\<open>time.sleep(tries ** 2)\<close>.
\<close>

definition log_and_sleep :: "int \<Rightarrow> 'w env \<Rightarrow> 'w env" where
  "log_and_sleep tries e = e\<lparr>trace := trace e @ [Logged tries, Slept (tries ^ 2)]\<rparr>"

text \<open>
  The \<^verbatim>\<open>while True\<close> loop of \<^verbatim>\<open>_try_execute\<close>, with the local variable \<^verbatim>\<open>tries\<close> as
  an argument. Reading \<^verbatim>\<open>self.configuration.num_shell_tries\<close> when the configuration is
  \<^verbatim>\<open>None\<close> raises an AttributeError out of the handler.
\<close>

function try_execute_loop ::
  "'w ExecuteMixin \<Rightarrow> pyval list \<Rightarrow> kwargs \<Rightarrow> int \<Rightarrow> 'w env \<Rightarrow> bool result \<times> 'w env" where
  "try_execute_loop self command kwargs tries e =
     (case invoke self command kwargs e of
        (None, e1) \<Rightarrow> (Inr True, e1)
      | (Some x, e1) \<Rightarrow>
          if is_ProcessExecutionError x then
            (case em_configuration self of
               None \<Rightarrow> (Inl (AttributeError ''num_shell_tries''), e1)
             | Some cfg \<Rightarrow>
                 if tries + 1 \<ge> num_shell_tries cfg then (Inl x, e1)
                 else try_execute_loop self command kwargs (tries + 1)
                        (log_and_sleep (tries + 1) e1))
          else (Inl x, e1))"
  by pat_completeness auto
termination
  by (relation "measure (\<lambda>(self, command, kwargs, tries, e).
        case em_configuration self of
          None \<Rightarrow> 0
        | Some cfg \<Rightarrow> nat (num_shell_tries cfg - tries))") auto

declare try_execute_loop.simps [simp del]

definition try_execute ::
  "'w ExecuteMixin \<Rightarrow> pyval list \<Rightarrow> kwargs \<Rightarrow> 'w env \<Rightarrow> bool result \<times> 'w env" where
  "try_execute self command kwargs e = try_execute_loop self command kwargs 0 e"

text \<open>
  Vocabulary for statements about the primitive: the world after \<open>i\<close> invocations with
  the same command, and what invocation number \<open>i + 1\<close> does when the first one starts
  in world \<open>w\<close>.
\<close>

definition world_after :: "'w execute \<Rightarrow> pyval list \<Rightarrow> kwargs \<Rightarrow> nat \<Rightarrow> 'w \<Rightarrow> 'w" where
  "world_after ex command kwargs i w = ((\<lambda>v. snd (ex command kwargs v)) ^^ i) w"

definition outcome_at :: "'w execute \<Rightarrow> pyval list \<Rightarrow> kwargs \<Rightarrow> nat \<Rightarrow> 'w \<Rightarrow> exn option" where
  "outcome_at ex command kwargs i w =
     fst (ex command kwargs (world_after ex command kwargs i w))"

definition fails_transiently :: "'w execute \<Rightarrow> pyval list \<Rightarrow> kwargs \<Rightarrow> nat \<Rightarrow> 'w \<Rightarrow> bool" where
  "fails_transiently ex command kwargs i w =
     (case outcome_at ex command kwargs i w of
        None \<Rightarrow> False
      | Some x \<Rightarrow> is_ProcessExecutionError x)"

text \<open>
  A test double for the primitive, in the manner of a mock with a list of side effects:
  its world is the script of outcomes still to come; once the script is used up it
  returns normally.
\<close>

definition scripted :: "(exn option list) execute" where
  "scripted command kwargs w = (case w of [] \<Rightarrow> (None, []) | r # rs \<Rightarrow> (r, rs))"

definition fresh_env :: "'w \<Rightarrow> 'w env" where
  "fresh_env w = \<lparr>world = w, trace = []\<rparr>"

text \<open>A configuration with the default of every option except \<^verbatim>\<open>num_shell_tries\<close>.\<close>

definition cfg_tries :: "int \<Rightarrow> configuration" where
  "cfg_tries n = \<lparr>num_shell_tries = n, reserved_share_percentage = 0,
      share_backend_name = None, network_config_group = None, config_group = None\<rparr>"

definition scripted_mixin :: "int \<Rightarrow> (exn option list) ExecuteMixin" where
  "scripted_mixin n = \<lparr>em_configuration = Some (cfg_tries n), em_execute = scripted\<rparr>"

section \<open>ShareDriver\<close>

text \<open>
  Modelled from the spec: the class \<^verbatim>\<open>network.API\<close> behind \<^verbatim>\<open>self.network_api\<close> is not
  part of this module; the spec describes it as an external service with the entry points
  \<^verbatim>\<open>allocate_network(context, share_server, share_network, count, **extra)\<close> and
  \<^verbatim>\<open>deallocate_network(context, share_server_id)\<close>, which return nothing and fail with an
  error of the service. The calls it receives are recorded in order, as a mock would;
  \<open>service\<close> says which calls the service answers with an exception. The keyword payload
  is a dictionary.
\<close>

datatype net_call =
    Allocate_network pyval pyval pyval kwargs
  | Deallocate_network pyval pyval

record network_API =
  config_group_name :: pyval
  service :: "net_call \<Rightarrow> exn option"
  calls :: "net_call list"

definition network_API_init :: "(net_call \<Rightarrow> exn option) \<Rightarrow> pyval \<Rightarrow> network_API" where
  "network_API_init svc group_name = \<lparr>config_group_name = group_name, service = svc, calls = []\<rparr>"

definition network_call :: "network_API \<Rightarrow> net_call \<Rightarrow> unit result \<times> network_API" where
  "network_call api c =
     ((case service api c of None \<Rightarrow> Inr () | Some x \<Rightarrow> Inl x),
      api\<lparr>calls := calls api @ [c]\<rparr>)"

text \<open>
  The attributes of a driver instance. \<open>stats\<close> is the attribute \<^verbatim>\<open>_stats\<close>;
  \<open>None\<close> means that the instance has no such attribute.
\<close>

record ShareDriver =
  configuration :: "configuration option"
  network_api :: network_API
  stats :: "(string \<rightharpoonup> pyval) option"

text \<open>
  \<^verbatim>\<open>__init__\<close>, with the keyword argument \<^verbatim>\<open>configuration\<close> (absent is \<open>None\<close>) and
  the behaviour of the network service the instance will talk to.
  \<^verbatim>\<open>append_config_values\<close> registers options and is not observable here.
\<close>

definition ShareDriver_init :: "(net_call \<Rightarrow> exn option) \<Rightarrow> configuration option \<Rightarrow> ShareDriver" where
  "ShareDriver_init svc cfg =
     \<lparr>configuration = cfg,
      network_api = network_API_init svc
        (case cfg of
           Some c \<Rightarrow> py_or (opt_str (network_config_group c)) (opt_str (config_group c))
         | None \<Rightarrow> PyNone),
      stats = None\<rparr>"

text \<open>Every operation takes the instance first and returns it with its result.\<close>

definition create_share :: "ShareDriver \<Rightarrow> pyval \<Rightarrow> pyval \<Rightarrow> pyval \<Rightarrow> pyval result \<times> ShareDriver" where
  "create_share self context share share_server = (Inl NotImplementedError, self)"

definition create_share_from_snapshot ::
  "ShareDriver \<Rightarrow> pyval \<Rightarrow> pyval \<Rightarrow> pyval \<Rightarrow> pyval \<Rightarrow> pyval result \<times> ShareDriver" where
  "create_share_from_snapshot self context share snapshot share_server =
     (Inl NotImplementedError, self)"

definition create_snapshot :: "ShareDriver \<Rightarrow> pyval \<Rightarrow> pyval \<Rightarrow> pyval \<Rightarrow> pyval result \<times> ShareDriver" where
  "create_snapshot self context snapshot share_server = (Inl NotImplementedError, self)"

definition delete_share :: "ShareDriver \<Rightarrow> pyval \<Rightarrow> pyval \<Rightarrow> pyval \<Rightarrow> pyval result \<times> ShareDriver" where
  "delete_share self context share share_server = (Inl NotImplementedError, self)"

definition delete_snapshot :: "ShareDriver \<Rightarrow> pyval \<Rightarrow> pyval \<Rightarrow> pyval \<Rightarrow> pyval result \<times> ShareDriver" where
  "delete_snapshot self context snapshot share_server = (Inl NotImplementedError, self)"

definition ensure_share :: "ShareDriver \<Rightarrow> pyval \<Rightarrow> pyval \<Rightarrow> pyval \<Rightarrow> pyval result \<times> ShareDriver" where
  "ensure_share self context share share_server = (Inl NotImplementedError, self)"

definition allow_access ::
  "ShareDriver \<Rightarrow> pyval \<Rightarrow> pyval \<Rightarrow> pyval \<Rightarrow> pyval \<Rightarrow> pyval result \<times> ShareDriver" where
  "allow_access self context share access share_server = (Inl NotImplementedError, self)"

definition deny_access ::
  "ShareDriver \<Rightarrow> pyval \<Rightarrow> pyval \<Rightarrow> pyval \<Rightarrow> pyval \<Rightarrow> pyval result \<times> ShareDriver" where
  "deny_access self context share access share_server = (Inl NotImplementedError, self)"

definition check_for_setup_error :: "ShareDriver \<Rightarrow> pyval result \<times> ShareDriver" where
  "check_for_setup_error self = (Inr PyNone, self)"

definition do_setup :: "ShareDriver \<Rightarrow> pyval \<Rightarrow> pyval result \<times> ShareDriver" where
  "do_setup self context = (Inr PyNone, self)"

definition update_share_status :: "ShareDriver \<Rightarrow> unit result \<times> ShareDriver" where
  "update_share_status self =
     (case configuration self of
        None \<Rightarrow> (Inl (AttributeError ''safe_get''), self)
      | Some cfg \<Rightarrow>
          (Inr (),
           self\<lparr>stats := Some
             (Map.empty
               (''share_backend_name'' \<mapsto>
                  py_or (safe_get cfg ''share_backend_name'') (PyStr ''Generic_NFS''),
                ''vendor_name'' \<mapsto> PyStr ''Open Source'',
                ''driver_version'' \<mapsto> PyStr ''1.0'',
                ''storage_protocol'' \<mapsto> PyNone,
                ''total_capacity_gb'' \<mapsto> PyStr ''infinite'',
                ''free_capacity_gb'' \<mapsto> PyStr ''infinite'',
                ''reserved_percentage'' \<mapsto> PyInt 0,
                ''QoS_support'' \<mapsto> PyBool False))\<rparr>))"

text \<open>The read \<^verbatim>\<open>self._stats\<close>: an AttributeError when the attribute was never set.\<close>

definition read_stats :: "ShareDriver \<Rightarrow> (string \<rightharpoonup> pyval) result \<times> ShareDriver" where
  "read_stats self =
     (case stats self of
        None \<Rightarrow> (Inl (AttributeError ''_stats''), self)
      | Some data \<Rightarrow> (Inr data, self))"

definition get_share_stats :: "ShareDriver \<Rightarrow> bool \<Rightarrow> (string \<rightharpoonup> pyval) result \<times> ShareDriver" where
  "get_share_stats self refresh =
     (if refresh then
        (case update_share_status self of
           (Inl x, self') \<Rightarrow> (Inl x, self')
         | (Inr _, self') \<Rightarrow> read_stats self')
      else read_stats self)"

definition get_network_allocations_number :: "ShareDriver \<Rightarrow> pyval result" where
  "get_network_allocations_number self = Inl NotImplementedError"

text \<open>
  \<^verbatim>\<open>allocate_network\<close> and \<^verbatim>\<open>deallocate_network\<close> call
  \<^verbatim>\<open>self.get_network_allocations_number()\<close>, which every backend overrides. The method
  that the call dispatches to is the first argument \<open>hook\<close>; for the base class it is
  \<open>get_network_allocations_number\<close> above. A hook reads the instance and returns a value
  or raises, as the docstring of the method describes it.
  An absent \<^verbatim>\<open>count\<close> argument is \<open>PyNone\<close>, its default. \<^verbatim>\<open>count\<close> is a named
  parameter, so \<^verbatim>\<open>**kwargs\<close> arrives without that key and \<^verbatim>\<open>kwargs.update\<close> adds it.
\<close>

definition allocate_network ::
  "(ShareDriver \<Rightarrow> pyval result) \<Rightarrow> ShareDriver \<Rightarrow> pyval \<Rightarrow> pyval \<Rightarrow> pyval \<Rightarrow> pyval \<Rightarrow> kwargs
     \<Rightarrow> unit result \<times> ShareDriver" where
  "allocate_network hook self context share_server share_network count kwargs =
     (case (if count = PyNone then hook self else Inr count) of
        Inl x \<Rightarrow> (Inl x, self)
      | Inr count' \<Rightarrow>
          if truthy count' then
            (case network_call (network_api self)
                    (Allocate_network context share_server share_network
                       (kwargs(''count'' \<mapsto> count'))) of
               (r, api) \<Rightarrow> (r, self\<lparr>network_api := api\<rparr>))
          else (Inr (), self))"

definition deallocate_network ::
  "(ShareDriver \<Rightarrow> pyval result) \<Rightarrow> ShareDriver \<Rightarrow> pyval \<Rightarrow> pyval \<Rightarrow> unit result \<times> ShareDriver" where
  "deallocate_network hook self context share_server_id =
     (case hook self of
        Inl x \<Rightarrow> (Inl x, self)
      | Inr n \<Rightarrow>
          if truthy n then
            (case network_call (network_api self) (Deallocate_network context share_server_id) of
               (r, api) \<Rightarrow> (r, self\<lparr>network_api := api\<rparr>))
          else (Inr (), self))"

definition setup_server :: "ShareDriver \<Rightarrow> pyval \<Rightarrow> pyval \<Rightarrow> pyval result \<times> ShareDriver" where
  "setup_server self network_info metadata = (Inr PyNone, self)"

definition teardown_server :: "ShareDriver \<Rightarrow> pyval \<Rightarrow> pyval \<Rightarrow> pyval result \<times> ShareDriver" where
  "teardown_server self server_details security_services = (Inr PyNone, self)"

text \<open>
  Test doubles: a network service that never fails, the override of
  \<^verbatim>\<open>get_network_allocations_number\<close> of a backend that always needs \<open>n\<close> allocations,
  and a configuration that reserves \<open>p\<close> percent.
\<close>

definition reliable_service :: "net_call \<Rightarrow> exn option" where
  "reliable_service c = None"

definition fixed_allocations :: "int \<Rightarrow> ShareDriver \<Rightarrow> pyval result" where
  "fixed_allocations n self = Inr (PyInt n)"

definition cfg_reserved :: "int \<Rightarrow> configuration" where
  "cfg_reserved p = (cfg_tries 3)\<lparr>reserved_share_percentage := p\<rparr>"

section \<open>Facts about the execute primitive and one invocation\<close>

lemma world_after_0: "world_after ex c kw 0 w = w"
  by (simp add: world_after_def)

lemma world_after_Suc:
  "world_after ex c kw (Suc i) w = world_after ex c kw i (snd (ex c kw w))"
  using funpow_swap1 [of "\<lambda>v. snd (ex c kw v)" i w] by (simp add: world_after_def)

lemma outcome_at_0: "outcome_at ex c kw 0 w = fst (ex c kw w)"
  by (simp add: outcome_at_def world_after_0)

lemma outcome_at_Suc:
  "outcome_at ex c kw (Suc i) w = outcome_at ex c kw i (snd (ex c kw w))"
  by (simp add: outcome_at_def world_after_Suc)

lemma fails_transiently_Suc:
  "fails_transiently ex c kw (Suc i) w = fails_transiently ex c kw i (snd (ex c kw w))"
  by (simp add: fails_transiently_def outcome_at_Suc)

lemma invocations_of_append:
  "invocations_of (es @ fs) = invocations_of es + invocations_of fs"
  by (induction es rule: invocations_of.induct) simp_all

lemma sleeps_of_append: "sleeps_of (es @ fs) = sleeps_of es @ sleeps_of fs"
  by (induction es rule: sleeps_of.induct) simp_all

lemma logs_of_append: "logs_of (es @ fs) = logs_of es @ logs_of fs"
  by (induction es rule: logs_of.induct) simp_all

lemma invoke_fst: "fst (invoke self c kw e) = fst (em_execute self c kw (world e))"
  by (simp add: invoke_def split: prod.splits)

lemma invoke_world: "world (snd (invoke self c kw e)) = snd (em_execute self c kw (world e))"
  by (simp add: invoke_def split: prod.splits)

lemma invoke_invocations: "invocations (snd (invoke self c kw e)) = Suc (invocations e)"
  by (simp add: invoke_def invocations_def invocations_of_append split: prod.splits)

lemma invoke_slept: "slept (snd (invoke self c kw e)) = slept e"
  by (simp add: invoke_def slept_def sleeps_of_append split: prod.splits)

lemma invoke_logged: "logged (snd (invoke self c kw e)) = logged e"
  by (simp add: invoke_def logged_def logs_of_append split: prod.splits)

lemma log_and_sleep_world: "world (log_and_sleep tries e) = world e"
  by (simp add: log_and_sleep_def)

lemma log_and_sleep_invocations: "invocations (log_and_sleep tries e) = invocations e"
  by (simp add: log_and_sleep_def invocations_def invocations_of_append)

lemma log_and_sleep_slept: "slept (log_and_sleep tries e) = slept e @ [tries ^ 2]"
  by (simp add: log_and_sleep_def slept_def sleeps_of_append)

lemma log_and_sleep_logged: "logged (log_and_sleep tries e) = logged e @ [tries]"
  by (simp add: log_and_sleep_def logged_def logs_of_append)

section \<open>The retry loop\<close>

text \<open>
  When the next \<open>m\<close> invocations all fail transiently and the \<open>m\<close>-th of them brings
  \<open>tries\<close> to the limit, the loop makes exactly those \<open>m\<close> invocations and re-raises
  what the last one raised.
\<close>

lemma loop_exhausts:
  assumes cfg: "em_configuration self = Some cfg"
  shows "1 \<le> m \<Longrightarrow> tries + int m = num_shell_tries cfg \<Longrightarrow>
         \<forall>i<m. fails_transiently (em_execute self) c kw i (world e) \<Longrightarrow>
         Some (fst (try_execute_loop self c kw tries e))
           = map_option Inl (outcome_at (em_execute self) c kw (m - 1) (world e)) \<and>
         invocations (snd (try_execute_loop self c kw tries e)) = invocations e + m"
proof (induction m arbitrary: tries e)
  case 0
  then show ?case by simp
next
  case (Suc m)
  obtain r e1 where inv: "invoke self c kw e = (r, e1)"
    by (cases "invoke self c kw e")
  have r: "r = fst (em_execute self c kw (world e))"
    using invoke_fst [of self c kw e] inv by simp
  have w1: "world e1 = snd (em_execute self c kw (world e))"
    using invoke_world [of self c kw e] inv by simp
  have n1: "invocations e1 = Suc (invocations e)"
    using invoke_invocations [of self c kw e] inv by simp
  from Suc.prems(3) have "fails_transiently (em_execute self) c kw 0 (world e)"
    by simp
  then obtain x where x: "r = Some x" "is_ProcessExecutionError x"
    by (auto simp: fails_transiently_def outcome_at_0 r split: option.splits)
  show ?case
  proof (cases "m = 0")
    case True
    with Suc.prems(2) have "tries + 1 = num_shell_tries cfg" by simp
    then show ?thesis using inv x cfg True n1
      by (subst (1 2) try_execute_loop.simps) (simp add: outcome_at_0 r)
  next
    case False
    then have lt: "\<not> tries + 1 \<ge> num_shell_tries cfg"
      using Suc.prems(2) by simp
    define e2 where "e2 = log_and_sleep (tries + 1) e1"
    have step: "try_execute_loop self c kw tries e = try_execute_loop self c kw (tries + 1) e2"
      using inv x cfg lt by (subst try_execute_loop.simps) (simp add: e2_def)
    have w2: "world e2 = snd (em_execute self c kw (world e))"
      using w1 by (simp add: e2_def log_and_sleep_world)
    have n2: "invocations e2 = Suc (invocations e)"
      using n1 by (simp add: e2_def log_and_sleep_invocations)
    have "\<forall>i<m. fails_transiently (em_execute self) c kw i (world e2)"
      using Suc.prems(3) by (auto simp: w2 fails_transiently_Suc [symmetric])
    moreover have "1 \<le> m" using False by simp
    moreover have "tries + 1 + int m = num_shell_tries cfg"
      using Suc.prems(2) by simp
    ultimately have IH:
      "Some (fst (try_execute_loop self c kw (tries + 1) e2))
         = map_option Inl (outcome_at (em_execute self) c kw (m - 1) (world e2)) \<and>
       invocations (snd (try_execute_loop self c kw (tries + 1) e2)) = invocations e2 + m"
      using Suc.IH [of "tries + 1" e2] by blast
    have "outcome_at (em_execute self) c kw (m - 1) (world e2)
            = outcome_at (em_execute self) c kw (Suc m - 1) (world e)"
      using False outcome_at_Suc [of "em_execute self" c kw "m - 1" "world e"]
      by (simp add: w2)
    then show ?thesis using IH step n2 by simp
  qed
qed

text \<open>
  When the next \<open>k\<close> invocations fail transiently without reaching the limit and the one
  after them returns, the loop returns \<open>True\<close> after \<open>k + 1\<close> invocations.
\<close>

lemma loop_recovers:
  assumes cfg: "em_configuration self = Some cfg"
  shows "tries + int k < num_shell_tries cfg \<Longrightarrow>
         \<forall>i<k. fails_transiently (em_execute self) c kw i (world e) \<Longrightarrow>
         outcome_at (em_execute self) c kw k (world e) = None \<Longrightarrow>
         fst (try_execute_loop self c kw tries e) = Inr True \<and>
         invocations (snd (try_execute_loop self c kw tries e)) = invocations e + k + 1"
proof (induction k arbitrary: tries e)
  case 0
  obtain r e1 where inv: "invoke self c kw e = (r, e1)"
    by (cases "invoke self c kw e")
  have r: "r = fst (em_execute self c kw (world e))"
    using invoke_fst [of self c kw e] inv by simp
  have n1: "invocations e1 = Suc (invocations e)"
    using invoke_invocations [of self c kw e] inv by simp
  from 0(3) have "r = None" by (simp add: outcome_at_0 r)
  then show ?case using inv n1 by (subst (1 2) try_execute_loop.simps) simp
next
  case (Suc k)
  obtain r e1 where inv: "invoke self c kw e = (r, e1)"
    by (cases "invoke self c kw e")
  have r: "r = fst (em_execute self c kw (world e))"
    using invoke_fst [of self c kw e] inv by simp
  have w1: "world e1 = snd (em_execute self c kw (world e))"
    using invoke_world [of self c kw e] inv by simp
  have n1: "invocations e1 = Suc (invocations e)"
    using invoke_invocations [of self c kw e] inv by simp
  from Suc.prems(2) have "fails_transiently (em_execute self) c kw 0 (world e)"
    by simp
  then obtain x where x: "r = Some x" "is_ProcessExecutionError x"
    by (auto simp: fails_transiently_def outcome_at_0 r split: option.splits)
  have lt: "\<not> tries + 1 \<ge> num_shell_tries cfg"
    using Suc.prems(1) by simp
  define e2 where "e2 = log_and_sleep (tries + 1) e1"
  have step: "try_execute_loop self c kw tries e = try_execute_loop self c kw (tries + 1) e2"
    using inv x cfg lt by (subst try_execute_loop.simps) (simp add: e2_def)
  have w2: "world e2 = snd (em_execute self c kw (world e))"
    using w1 by (simp add: e2_def log_and_sleep_world)
  have n2: "invocations e2 = Suc (invocations e)"
    using n1 by (simp add: e2_def log_and_sleep_invocations)
  have "\<forall>i<k. fails_transiently (em_execute self) c kw i (world e2)"
    using Suc.prems(2) by (auto simp: w2 fails_transiently_Suc [symmetric])
  moreover have "tries + 1 + int k < num_shell_tries cfg"
    using Suc.prems(1) by simp
  moreover have "outcome_at (em_execute self) c kw k (world e2) = None"
    using Suc.prems(3) by (simp add: w2 outcome_at_Suc)
  ultimately have IH:
    "fst (try_execute_loop self c kw (tries + 1) e2) = Inr True \<and>
     invocations (snd (try_execute_loop self c kw (tries + 1) e2)) = invocations e2 + k + 1"
    using Suc.IH [of "tries + 1" e2] by blast
  then show ?case using step n2 by simp
qed

text \<open>
  Whatever the primitive does: the loop invokes it at least once, and between two
  invocations it logs the value of \<open>tries\<close> and sleeps for its square.
\<close>

lemma upt_from_1: "1 \<le> m \<Longrightarrow> [1..<Suc m] = 1 # map Suc [1..<m]"
proof -
  assume "1 \<le> m"
  then have "[1..<Suc m] = 1 # [Suc 1..<Suc m]"
    by (simp add: upt_conv_Cons del: upt_Suc)
  also have "[Suc 1..<Suc m] = map Suc [1..<m]"
    by (simp only: map_Suc_upt)
  finally show ?thesis .
qed

lemma squares_upt:
  "1 \<le> m \<Longrightarrow>
   map (\<lambda>n. (t + int n) ^ 2) [1..<Suc m]
     = (t + 1) ^ 2 # map (\<lambda>n. (t + 1 + int n) ^ 2) [1..<m]"
  by (simp only: upt_from_1 list.map map_map comp_def)
     (simp add: add.commute add.left_commute)

lemma tries_upt:
  "1 \<le> m \<Longrightarrow>
   map (\<lambda>n. t + int n) [1..<Suc m] = (t + 1) # map (\<lambda>n. t + 1 + int n) [1..<m]"
  by (simp only: upt_from_1 list.map map_map comp_def)
     (simp add: add.commute add.left_commute)

lemma loop_effects:
  "invocations e < invocations (snd (try_execute_loop self c kw tries e)) \<and>
   slept (snd (try_execute_loop self c kw tries e))
     = slept e @ map (\<lambda>n. (tries + int n) ^ 2)
                   [1..<invocations (snd (try_execute_loop self c kw tries e)) - invocations e] \<and>
   logged (snd (try_execute_loop self c kw tries e))
     = logged e @ map (\<lambda>n. tries + int n)
                   [1..<invocations (snd (try_execute_loop self c kw tries e)) - invocations e]"
proof (induction self c kw tries e rule: try_execute_loop.induct)
  case (1 self c kw tries e)
  obtain r e1 where inv: "invoke self c kw e = (r, e1)"
    by (cases "invoke self c kw e")
  have n1: "invocations e1 = Suc (invocations e)"
    using invoke_invocations [of self c kw e] inv by simp
  have s1: "slept e1 = slept e"
    using invoke_slept [of self c kw e] inv by simp
  have l1: "logged e1 = logged e"
    using invoke_logged [of self c kw e] inv by simp
  define e2 where "e2 = log_and_sleep (tries + 1) e1"
  show ?case
  proof (cases "\<exists>x cfg. r = Some x \<and> is_ProcessExecutionError x \<and>
                  em_configuration self = Some cfg \<and> \<not> tries + 1 \<ge> num_shell_tries cfg")
    case False
    then have "snd (try_execute_loop self c kw tries e) = e1"
      using inv by (subst try_execute_loop.simps) (auto split: option.splits)
    then show ?thesis using n1 s1 l1 by simp
  next
    case True
    then obtain x cfg where x: "r = Some x" "is_ProcessExecutionError x"
      "em_configuration self = Some cfg" "\<not> tries + 1 \<ge> num_shell_tries cfg"
      by blast
    have step: "try_execute_loop self c kw tries e = try_execute_loop self c kw (tries + 1) e2"
      using inv x by (subst try_execute_loop.simps) (simp add: e2_def)
    let ?e' = "snd (try_execute_loop self c kw (tries + 1) e2)"
    have IH: "invocations e2 < invocations ?e' \<and>
       slept ?e' = slept e2 @ map (\<lambda>n. (tries + 1 + int n) ^ 2)
                                [1..<invocations ?e' - invocations e2] \<and>
       logged ?e' = logged e2 @ map (\<lambda>n. tries + 1 + int n)
                                [1..<invocations ?e' - invocations e2]"
      using "1.IH" [OF inv [symmetric] x(1) x(2) x(3) x(4)] unfolding e2_def by blast
    define m where "m = invocations ?e' - invocations e2"
    have n2: "invocations e2 = Suc (invocations e)"
      using n1 by (simp add: e2_def log_and_sleep_invocations)
    have s2: "slept e2 = slept e @ [(tries + 1) ^ 2]"
      using s1 by (simp add: e2_def log_and_sleep_slept)
    have l2: "logged e2 = logged e @ [tries + 1]"
      using l1 by (simp add: e2_def log_and_sleep_logged)
    have m: "invocations ?e' - invocations e = Suc m" "1 \<le> m"
      using IH n2 by (auto simp: m_def)
    have "slept ?e' = slept e2 @ map (\<lambda>n. (tries + 1 + int n) ^ 2) [1..<m]"
      using IH by (simp add: m_def)
    then have "slept ?e' = slept e @ map (\<lambda>n. (tries + int n) ^ 2) [1..<Suc m]"
      by (simp only: s2 squares_upt [OF m(2)] append_assoc append_Cons append_Nil)
    moreover have "logged ?e' = logged e2 @ map (\<lambda>n. tries + 1 + int n) [1..<m]"
      using IH by (simp add: m_def)
    then have "logged ?e' = logged e @ map (\<lambda>n. tries + int n) [1..<Suc m]"
      by (simp only: l2 tries_upt [OF m(2)] append_assoc append_Cons append_Nil)
    moreover have "invocations e < invocations ?e'"
      using IH n2 by simp
    ultimately show ?thesis by (simp only: step m(1))
  qed
qed

lemma invoke_trace: "trace (snd (invoke self c kw e)) = trace e @ [Invoked]"
  by (simp add: invoke_def split: prod.splits)

text \<open>The squares of \<open>1, 2, 3, ...\<close> increase strictly.\<close>

lemma squares_increasing: "sorted_wrt (<) (map (\<lambda>n. (int n) ^ 2) [1..<m])"
proof -
  have "sorted_wrt (\<lambda>a b. (int a) ^ 2 < (int b) ^ 2) [1..<m]"
  proof (rule sorted_wrt_mono_rel [of _ "(<)"])
    fix a b :: nat
    assume "a < b"
    then show "(int a) ^ 2 < (int b) ^ 2"
      by (intro power_strict_mono) simp_all
  next
    show "sorted_wrt (<) [1..<m]" by simp
  qed
  then show ?thesis by (simp add: sorted_wrt_map)
qed

section \<open>Facts about the driver operations\<close>

lemma update_share_status_data:
  assumes "configuration self = Some cfg"
  shows "update_share_status self =
     (Inr (),
      self\<lparr>stats := Some
        (Map.empty
          (''share_backend_name'' \<mapsto>
             py_or (safe_get cfg ''share_backend_name'') (PyStr ''Generic_NFS''),
           ''vendor_name'' \<mapsto> PyStr ''Open Source'',
           ''driver_version'' \<mapsto> PyStr ''1.0'',
           ''storage_protocol'' \<mapsto> PyNone,
           ''total_capacity_gb'' \<mapsto> PyStr ''infinite'',
           ''free_capacity_gb'' \<mapsto> PyStr ''infinite'',
           ''reserved_percentage'' \<mapsto> PyInt 0,
           ''QoS_support'' \<mapsto> PyBool False))\<rparr>)"
  using assms by (simp add: update_share_status_def)

lemma allocate_network_stats:
  "stats (snd (allocate_network hook self context share_server share_network count kwargs))
     = stats self"
  by (simp add: allocate_network_def network_call_def split: sum.splits prod.splits)

lemma deallocate_network_stats:
  "stats (snd (deallocate_network hook self context share_server_id)) = stats self"
  by (simp add: deallocate_network_def network_call_def split: sum.splits prod.splits)

section \<open>Claims about \<^verbatim>\<open>_try_execute\<close>\<close>

text \<open>
  C1. With \<^verbatim>\<open>num_shell_tries\<close> configured as \<open>n \<ge> 1\<close>: if the first \<open>n\<close> invocations of
  the primitive all raise a ProcessExecutionError, \<^verbatim>\<open>_try_execute\<close> invokes the primitive
  exactly \<open>n\<close> times and raises what the \<open>n\<close>-th invocation raised; if the first
  \<open>k < n\<close> invocations raise a ProcessExecutionError and the next one returns,
  \<^verbatim>\<open>_try_execute\<close> returns \<open>True\<close> after exactly \<open>k + 1\<close> invocations.
\<close>

theorem try_execute_retry_bound:
  assumes "em_configuration self = Some cfg"
    and "num_shell_tries cfg = int n"
    and "1 \<le> n"
  shows "((\<forall>i<n. fails_transiently (em_execute self) command kwargs i (world e)) \<longrightarrow>
            (\<exists>x. outcome_at (em_execute self) command kwargs (n - 1) (world e) = Some x \<and>
                 is_ProcessExecutionError x \<and>
                 fst (try_execute self command kwargs e) = Inl x) \<and>
            invocations (snd (try_execute self command kwargs e)) = invocations e + n)
       \<and> (\<forall>k<n. (\<forall>i<k. fails_transiently (em_execute self) command kwargs i (world e)) \<and>
                  outcome_at (em_execute self) command kwargs k (world e) = None \<longrightarrow>
            fst (try_execute self command kwargs e) = Inr True \<and>
            invocations (snd (try_execute self command kwargs e)) = invocations e + (k + 1))"
proof (intro conjI impI allI)
  assume all: "\<forall>i<n. fails_transiently (em_execute self) command kwargs i (world e)"
  have "0 + int n = num_shell_tries cfg" using assms(2) by simp
  from loop_exhausts [OF assms(1) assms(3) this all]
  have res: "Some (fst (try_execute self command kwargs e))
               = map_option Inl (outcome_at (em_execute self) command kwargs (n - 1) (world e))"
    and cnt: "invocations (snd (try_execute self command kwargs e)) = invocations e + n"
    by (simp_all add: try_execute_def)
  from all assms(3) have "fails_transiently (em_execute self) command kwargs (n - 1) (world e)"
    by simp
  then obtain x where "outcome_at (em_execute self) command kwargs (n - 1) (world e) = Some x"
    "is_ProcessExecutionError x"
    by (auto simp: fails_transiently_def split: option.splits)
  with res show "\<exists>x. outcome_at (em_execute self) command kwargs (n - 1) (world e) = Some x \<and>
                 is_ProcessExecutionError x \<and>
                 fst (try_execute self command kwargs e) = Inl x"
    by simp
  from cnt show "invocations (snd (try_execute self command kwargs e)) = invocations e + n" .
next
  fix k
  assume k: "k < n"
    and h: "(\<forall>i<k. fails_transiently (em_execute self) command kwargs i (world e)) \<and>
            outcome_at (em_execute self) command kwargs k (world e) = None"
  have "0 + int k < num_shell_tries cfg" using assms(2) k by simp
  from loop_recovers [OF assms(1) this] h
  have both: "fst (try_execute self command kwargs e) = Inr True \<and>
        invocations (snd (try_execute self command kwargs e)) = invocations e + k + 1"
    by (simp add: try_execute_def)
  from both show "fst (try_execute self command kwargs e) = Inr True" by simp
  from both show "invocations (snd (try_execute self command kwargs e)) = invocations e + (k + 1)"
    by simp
qed

theorem try_execute_retry_bound_witness:
  "fst (try_execute (scripted_mixin 3) [PyStr ''mount''] Map.empty
          (fresh_env [Some (ProcessExecutionError ''first''),
                      Some (ProcessExecutionError ''second''),
                      Some (ProcessExecutionError ''third'')]))
     = Inl (ProcessExecutionError ''third'') \<and>
   invocations (snd (try_execute (scripted_mixin 3) [PyStr ''mount''] Map.empty
          (fresh_env [Some (ProcessExecutionError ''first''),
                      Some (ProcessExecutionError ''second''),
                      Some (ProcessExecutionError ''third'')]))) = 3 \<and>
   fst (try_execute (scripted_mixin 3) [PyStr ''mount''] Map.empty
          (fresh_env [Some (ProcessExecutionError ''first'')])) = Inr True \<and>
   invocations (snd (try_execute (scripted_mixin 3) [PyStr ''mount''] Map.empty
          (fresh_env [Some (ProcessExecutionError ''first'')]))) = 2"
proof -
  let ?self = "scripted_mixin 3"
  let ?c = "[PyStr ''mount'']"
  let ?kw = "Map.empty :: kwargs"
  let ?s3 = "[Some (ProcessExecutionError ''first''), Some (ProcessExecutionError ''second''),
              Some (ProcessExecutionError ''third'')]"
  let ?s1 = "[Some (ProcessExecutionError ''first'')]"
  have c: "em_configuration ?self = Some (cfg_tries 3)"
    by (simp add: scripted_mixin_def)
  have n: "num_shell_tries (cfg_tries 3) = int 3"
    by (simp add: cfg_tries_def)
  have three: "(1::nat) \<le> 3" by simp
  have ex: "em_execute ?self = scripted"
    by (simp add: scripted_mixin_def)
  have always: "\<forall>i<3. fails_transiently (em_execute ?self) ?c ?kw i (world (fresh_env ?s3))"
    by (simp add: ex fresh_env_def eval_nat_numeral All_less_Suc fails_transiently_def
          outcome_at_def world_after_def scripted_def)
  have last: "outcome_at (em_execute ?self) ?c ?kw (3 - 1) (world (fresh_env ?s3))
                = Some (ProcessExecutionError ''third'')"
    by (simp add: ex fresh_env_def eval_nat_numeral outcome_at_def world_after_def scripted_def)
  have once: "\<forall>i<1. fails_transiently (em_execute ?self) ?c ?kw i (world (fresh_env ?s1))"
    by (simp add: ex fresh_env_def fails_transiently_def outcome_at_def world_after_def
          scripted_def)
  have then_ok: "outcome_at (em_execute ?self) ?c ?kw 1 (world (fresh_env ?s1)) = None"
    by (simp add: ex fresh_env_def outcome_at_def world_after_def scripted_def)
  have i0: "invocations (fresh_env ?s3) = 0" "invocations (fresh_env ?s1) = 0"
    by (simp_all add: fresh_env_def invocations_def)
  from try_execute_retry_bound [OF c n three, of ?c ?kw "fresh_env ?s3"] always last
  have A: "fst (try_execute ?self ?c ?kw (fresh_env ?s3)) = Inl (ProcessExecutionError ''third'')"
    "invocations (snd (try_execute ?self ?c ?kw (fresh_env ?s3))) = 3"
    by (auto simp: i0)
  have "(1::nat) < 3" by simp
  from conjunct2 [OF try_execute_retry_bound [OF c n three, of ?c ?kw "fresh_env ?s1"],
         rule_format, OF this conjI [OF once then_ok]]
  have B: "fst (try_execute ?self ?c ?kw (fresh_env ?s1)) = Inr True"
    "invocations (snd (try_execute ?self ?c ?kw (fresh_env ?s1))) = 2"
    by (simp_all add: i0)
  from A B show ?thesis by simp
qed

text \<open>
  C2. Whatever the primitive does, the sleeps that one call of \<^verbatim>\<open>_try_execute\<close> performs
  are \<open>1, 4, 9, ...\<close>: the \<open>n\<close>-th of them, the wait before retry number \<open>n\<close>, lasts
  \<open>n\<^sup>2\<close> units, there is one between any two invocations, and they increase strictly.
  With \<^verbatim>\<open>num_shell_tries = 3\<close> and a primitive that keeps failing transiently the sleeps
  are 1 and 4, the first before the second invocation and the second before the third.
\<close>

theorem try_execute_backoff:
  "slept (snd (try_execute self command kwargs e))
     = slept e @ map (\<lambda>n. (int n) ^ 2)
         [1..<invocations (snd (try_execute self command kwargs e)) - invocations e] \<and>
   sorted_wrt (<) (drop (length (slept e)) (slept (snd (try_execute self command kwargs e)))) \<and>
   slept (snd (try_execute (scripted_mixin 3) [PyStr ''mount''] Map.empty
          (fresh_env [Some (ProcessExecutionError ''first''),
                      Some (ProcessExecutionError ''second''),
                      Some (ProcessExecutionError ''third'')]))) = [1, 4] \<and>
   trace (snd (try_execute (scripted_mixin 3) [PyStr ''mount''] Map.empty
          (fresh_env [Some (ProcessExecutionError ''first''),
                      Some (ProcessExecutionError ''second''),
                      Some (ProcessExecutionError ''third'')])))
     = [Invoked, Logged 1, Slept 1, Invoked, Logged 2, Slept 4, Invoked]"
proof (intro conjI)
  have eff: "slept (snd (try_execute self command kwargs e))
     = slept e @ map (\<lambda>n. (0 + int n) ^ 2)
         [1..<invocations (snd (try_execute self command kwargs e)) - invocations e]"
    using loop_effects [of e self command kwargs 0] by (simp only: try_execute_def)
  then show shape: "slept (snd (try_execute self command kwargs e))
     = slept e @ map (\<lambda>n. (int n) ^ 2)
         [1..<invocations (snd (try_execute self command kwargs e)) - invocations e]"
    by simp
  show "sorted_wrt (<) (drop (length (slept e)) (slept (snd (try_execute self command kwargs e))))"
    by (subst shape) (simp only: drop_append diff_self_eq_0 drop_all order_refl append_Nil
        drop_0 squares_increasing)
  have run: "trace (snd (try_execute (scripted_mixin 3) [PyStr ''mount''] Map.empty
          (fresh_env [Some (ProcessExecutionError ''first''),
                      Some (ProcessExecutionError ''second''),
                      Some (ProcessExecutionError ''third'')])))
     = [Invoked, Logged 1, Slept 1, Invoked, Logged 2, Slept 4, Invoked]"
    by (simp add: try_execute_def try_execute_loop.simps invoke_def log_and_sleep_def
        scripted_mixin_def scripted_def fresh_env_def cfg_tries_def)
  then show "slept (snd (try_execute (scripted_mixin 3) [PyStr ''mount''] Map.empty
          (fresh_env [Some (ProcessExecutionError ''first''),
                      Some (ProcessExecutionError ''second''),
                      Some (ProcessExecutionError ''third'')]))) = [1, 4]"
    by (simp add: slept_def)
  from run show "trace (snd (try_execute (scripted_mixin 3) [PyStr ''mount''] Map.empty
          (fresh_env [Some (ProcessExecutionError ''first''),
                      Some (ProcessExecutionError ''second''),
                      Some (ProcessExecutionError ''third'')])))
     = [Invoked, Logged 1, Slept 1, Invoked, Logged 2, Slept 4, Invoked]" .
qed

text \<open>
  C3. If the first invocation of the primitive raises anything that is not a
  ProcessExecutionError, \<^verbatim>\<open>_try_execute\<close> raises that exception after this one
  invocation, without logging or sleeping, whatever \<^verbatim>\<open>num_shell_tries\<close> is and whether
  or not there is a configuration at all.
\<close>

theorem try_execute_fail_fast:
  assumes "fst (em_execute self command kwargs (world e)) = Some x"
    and "\<not> is_ProcessExecutionError x"
  shows "fst (try_execute self command kwargs e) = Inl x \<and>
         invocations (snd (try_execute self command kwargs e)) = invocations e + 1 \<and>
         slept (snd (try_execute self command kwargs e)) = slept e \<and>
         logged (snd (try_execute self command kwargs e)) = logged e \<and>
         trace (snd (try_execute self command kwargs e)) = trace e @ [Invoked]"
proof -
  obtain r e1 where inv: "invoke self command kwargs e = (r, e1)"
    by (cases "invoke self command kwargs e")
  have r: "r = Some x"
    using invoke_fst [of self command kwargs e] inv assms(1) by simp
  have run: "try_execute self command kwargs e = (Inl x, e1)"
    unfolding try_execute_def using inv r assms(2)
    by (subst try_execute_loop.simps) simp
  have "invocations e1 = invocations e + 1"
    using invoke_invocations [of self command kwargs e] inv by simp
  moreover have "slept e1 = slept e"
    using invoke_slept [of self command kwargs e] inv by simp
  moreover have "logged e1 = logged e"
    using invoke_logged [of self command kwargs e] inv by simp
  moreover have "trace e1 = trace e @ [Invoked]"
    using invoke_trace [of self command kwargs e] inv by simp
  ultimately show ?thesis using run by simp
qed

theorem try_execute_fail_fast_witness:
  "fst (try_execute (scripted_mixin 5) [PyStr ''mount''] Map.empty
          (fresh_env [Some (OtherException ''OSError''), None])) = Inl (OtherException ''OSError'') \<and>
   invocations (snd (try_execute (scripted_mixin 5) [PyStr ''mount''] Map.empty
          (fresh_env [Some (OtherException ''OSError''), None]))) = 1 \<and>
   slept (snd (try_execute (scripted_mixin 5) [PyStr ''mount''] Map.empty
          (fresh_env [Some (OtherException ''OSError''), None]))) = []"
proof -
  have raised: "fst (em_execute (scripted_mixin 5) [PyStr ''mount''] Map.empty
                  (world (fresh_env [Some (OtherException ''OSError''), None])))
                = Some (OtherException ''OSError'')"
    by (simp add: scripted_mixin_def scripted_def fresh_env_def)
  have other: "\<not> is_ProcessExecutionError (OtherException ''OSError'')"
    by simp
  from try_execute_fail_fast [OF raised other] show ?thesis
    by (simp add: fresh_env_def invocations_def slept_def)
qed

section \<open>Claims about the driver\<close>

text \<open>
  C4. For a driver whose \<^verbatim>\<open>get_network_allocations_number()\<close> returns 0,
  \<^verbatim>\<open>allocate_network\<close> without a count and \<^verbatim>\<open>deallocate_network\<close> return without
  touching the driver: the network service receives no call from either of them, nor from
  the two in a row.
\<close>

theorem no_network_calls_when_zero:
  assumes "hook self = Inr (PyInt 0)"
  shows "allocate_network hook self context share_server share_network PyNone kwargs
           = (Inr (), self) \<and>
         deallocate_network hook self context' share_server_id = (Inr (), self) \<and>
         calls (network_api (snd (allocate_network hook self context share_server share_network
                  PyNone kwargs))) = calls (network_api self) \<and>
         calls (network_api (snd (deallocate_network hook
                  (snd (allocate_network hook self context share_server share_network
                     PyNone kwargs)) context' share_server_id))) = calls (network_api self)"
  using assms by (simp add: allocate_network_def deallocate_network_def)

theorem no_network_calls_when_zero_witness:
  "calls (network_api (snd (allocate_network (fixed_allocations 0)
       (ShareDriver_init reliable_service None) (PyObj 1) (PyObj 2) (PyObj 3) PyNone Map.empty))) = [] \<and>
   calls (network_api (snd (deallocate_network (fixed_allocations 0)
       (snd (allocate_network (fixed_allocations 0)
          (ShareDriver_init reliable_service None) (PyObj 1) (PyObj 2) (PyObj 3) PyNone Map.empty))
       (PyObj 1) (PyStr ''server-1'')))) = []"
proof -
  have zero: "fixed_allocations 0 (ShareDriver_init reliable_service None) = Inr (PyInt 0)"
    by (simp add: fixed_allocations_def)
  from no_network_calls_when_zero
         [of "fixed_allocations 0" "ShareDriver_init reliable_service None", OF zero]
  show ?thesis
    by (simp add: ShareDriver_init_def network_API_init_def)
qed

text \<open>
  C5. For a driver whose \<^verbatim>\<open>get_network_allocations_number()\<close> returns a non-zero integer
  \<open>n\<close>, \<^verbatim>\<open>allocate_network\<close> without a count makes exactly one call of the network
  service: \<^verbatim>\<open>allocate_network\<close> with the same context, share server and share network and
  with the keyword payload extended by \<open>count = n\<close>.
\<close>

theorem allocate_network_forwards_count:
  assumes "hook self = Inr (PyInt n)" and "n \<noteq> 0"
  shows "calls (network_api (snd (allocate_network hook self context share_server share_network
                  PyNone kwargs)))
           = calls (network_api self) @
               [Allocate_network context share_server share_network
                  (kwargs(''count'' \<mapsto> PyInt n))]"
  using assms by (simp add: allocate_network_def network_call_def split: prod.splits)

theorem allocate_network_forwards_count_witness:
  "calls (network_api (snd (allocate_network (fixed_allocations 3)
       (ShareDriver_init reliable_service None) (PyObj 1) (PyObj 2) (PyObj 3) PyNone Map.empty)))
     = [Allocate_network (PyObj 1) (PyObj 2) (PyObj 3) [''count'' \<mapsto> PyInt 3]]"
proof -
  have three: "fixed_allocations 3 (ShareDriver_init reliable_service None) = Inr (PyInt 3)"
    by (simp add: fixed_allocations_def)
  have nz: "(3::int) \<noteq> 0" by simp
  from allocate_network_forwards_count
         [of "fixed_allocations 3" "ShareDriver_init reliable_service None" 3, OF three nz]
  show ?thesis
    by (simp add: ShareDriver_init_def network_API_init_def)
qed

text \<open>
  C6. \<^verbatim>\<open>get_share_stats(refresh=True)\<close> on a driver whose configuration leaves
  \<^verbatim>\<open>share_backend_name\<close> unset returns a snapshot with \<^verbatim>\<open>share_backend_name\<close>
  "Generic_NFS", both capacities "infinite", \<^verbatim>\<open>QoS_support\<close> False, \<^verbatim>\<open>vendor_name\<close>
  "Open Source", \<^verbatim>\<open>driver_version\<close> "1.0" and \<^verbatim>\<open>storage_protocol\<close> None.
\<close>

theorem get_share_stats_defaults:
  assumes "configuration self = Some cfg" and "share_backend_name cfg = None"
  shows "\<exists>data. fst (get_share_stats self True) = Inr data \<and>
           data ''share_backend_name'' = Some (PyStr ''Generic_NFS'') \<and>
           data ''total_capacity_gb'' = Some (PyStr ''infinite'') \<and>
           data ''free_capacity_gb'' = Some (PyStr ''infinite'') \<and>
           data ''QoS_support'' = Some (PyBool False) \<and>
           data ''vendor_name'' = Some (PyStr ''Open Source'') \<and>
           data ''driver_version'' = Some (PyStr ''1.0'') \<and>
           data ''storage_protocol'' = Some PyNone"
  using assms
  by (simp add: get_share_stats_def update_share_status_data [OF assms(1)] read_stats_def
      safe_get_def opt_str_def py_or_def)

theorem get_share_stats_defaults_witness:
  "\<exists>data. fst (get_share_stats (ShareDriver_init reliable_service (Some (cfg_tries 3))) True)
             = Inr data \<and>
          data ''share_backend_name'' = Some (PyStr ''Generic_NFS'') \<and>
          data ''total_capacity_gb'' = Some (PyStr ''infinite'') \<and>
          data ''QoS_support'' = Some (PyBool False) \<and>
          data ''storage_protocol'' = Some PyNone"
proof -
  have c: "configuration (ShareDriver_init reliable_service (Some (cfg_tries 3)))
             = Some (cfg_tries 3)"
    by (simp add: ShareDriver_init_def)
  have unset: "share_backend_name (cfg_tries 3) = None"
    by (simp add: cfg_tries_def)
  from get_share_stats_defaults [OF c unset] show ?thesis
    by blast
qed

text \<open>
  C7. Each of the nine abstract operations of the base class raises NotImplementedError
  for all arguments and leaves the driver as it was.
\<close>

theorem abstract_operations_not_implemented:
  "create_share self context share share_server = (Inl NotImplementedError, self) \<and>
   create_share_from_snapshot self context share snapshot share_server
     = (Inl NotImplementedError, self) \<and>
   create_snapshot self context snapshot share_server = (Inl NotImplementedError, self) \<and>
   delete_share self context share share_server = (Inl NotImplementedError, self) \<and>
   delete_snapshot self context snapshot share_server = (Inl NotImplementedError, self) \<and>
   ensure_share self context share share_server = (Inl NotImplementedError, self) \<and>
   allow_access self context share access share_server = (Inl NotImplementedError, self) \<and>
   deny_access self context share access share_server = (Inl NotImplementedError, self) \<and>
   get_network_allocations_number self = Inl NotImplementedError"
  by (simp add: create_share_def create_share_from_snapshot_def create_snapshot_def
      delete_share_def delete_snapshot_def ensure_share_def allow_access_def deny_access_def
      get_network_allocations_number_def)

text \<open>
  C8. \<^verbatim>\<open>get_share_stats(refresh=False)\<close> leaves the driver as it was, so a second such call
  gives the same result as the first; and \<^verbatim>\<open>allocate_network\<close>,
  \<^verbatim>\<open>deallocate_network\<close>, \<^verbatim>\<open>setup_server\<close>, \<^verbatim>\<open>teardown_server\<close>, \<^verbatim>\<open>do_setup\<close> and
  \<^verbatim>\<open>check_for_setup_error\<close> leave \<^verbatim>\<open>_stats\<close> as it was, for every hook that
  \<^verbatim>\<open>get_network_allocations_number()\<close> may dispatch to and every argument.
\<close>

theorem stats_changed_by_refresh_only:
  "snd (get_share_stats self False) = self \<and>
   fst (get_share_stats (snd (get_share_stats self False)) False)
     = fst (get_share_stats self False) \<and>
   stats (snd (allocate_network hook self context share_server share_network count kwargs))
     = stats self \<and>
   stats (snd (deallocate_network hook self context share_server_id)) = stats self \<and>
   stats (snd (setup_server self network_info metadata)) = stats self \<and>
   stats (snd (teardown_server self server_details security_services)) = stats self \<and>
   stats (snd (do_setup self context)) = stats self \<and>
   stats (snd (check_for_setup_error self)) = stats self"
proof -
  have same: "snd (get_share_stats self False) = self"
    by (simp add: get_share_stats_def read_stats_def split: option.splits)
  show ?thesis
    by (simp only: same allocate_network_stats deallocate_network_stats)
       (simp add: setup_server_def teardown_server_def do_setup_def check_for_setup_error_def)
qed

text \<open>
  C9. A driver as \<^verbatim>\<open>__init__\<close> leaves it has no attribute \<^verbatim>\<open>_stats\<close>, and
  \<^verbatim>\<open>get_share_stats(refresh=False)\<close> on it raises an AttributeError instead of returning
  a snapshot.
\<close>

theorem get_share_stats_before_refresh:
  "stats (ShareDriver_init svc cfg) = None \<and>
   get_share_stats (ShareDriver_init svc cfg) False
     = (Inl (AttributeError ''_stats''), ShareDriver_init svc cfg)"
  by (simp add: ShareDriver_init_def get_share_stats_def read_stats_def)

text \<open>
  C10. For every configuration the snapshot that \<^verbatim>\<open>_update_share_status\<close> stores, and
  that \<^verbatim>\<open>get_share_stats(refresh=True)\<close> returns, has \<^verbatim>\<open>reserved_percentage\<close> 0, and
  it is the same snapshot whatever \<^verbatim>\<open>reserved_share_percentage\<close> is configured.
\<close>

theorem reserved_percentage_constant:
  assumes "configuration self = Some cfg"
  shows "\<exists>data. stats (snd (update_share_status self)) = Some data \<and>
           fst (get_share_stats self True) = Inr data \<and>
           data ''reserved_percentage'' = Some (PyInt 0) \<and>
           stats (snd (update_share_status
             (self\<lparr>configuration := Some (cfg\<lparr>reserved_share_percentage := p\<rparr>)\<rparr>)))
             = Some data"
  using assms
  by (simp add: get_share_stats_def update_share_status_def read_stats_def safe_get_def)

theorem reserved_percentage_constant_witness:
  "\<exists>data. stats (snd (update_share_status
             (ShareDriver_init reliable_service (Some (cfg_reserved 25))))) = Some data \<and>
          fst (get_share_stats (ShareDriver_init reliable_service (Some (cfg_reserved 25))) True)
            = Inr data \<and>
          data ''reserved_percentage'' = Some (PyInt 0)"
proof -
  have c: "configuration (ShareDriver_init reliable_service (Some (cfg_reserved 25)))
             = Some (cfg_reserved 25)"
    by (simp add: ShareDriver_init_def)
  from reserved_percentage_constant [OF c] show ?thesis
    by blast
qed

end
